theory Spec2Isabelle
  imports Main "HOL-Library.Sublist" "HOL-Library.List_Lexorder" "HOL-Library.Char_ord"
begin

section \<open>Data model of \<open>src/main.ts\<close>\<close>

text \<open>
  The bookkeeping dataset holds a tagged union of two record kinds, discriminated by the
  field \<open>type\<close>: \<open>'first-month-run'\<close> and \<open>'items-pushed'\<close>. The discriminant is the
  constructor. \<open>count\<close> is a JavaScript number that this program only ever adds up;
  it is modelled as an unbounded integer. Timestamps are the strings made by
  \<open>new Date().toISOString()\<close>; the program stores them and never reads them.
\<close>

datatype BookkeepingRecord =
    FirstMonthRun (runId: string) (timestamp: string)
  | ItemsPushed (count: int) (runId: string) (timestamp: string)

datatype ChargeEvent = Rental | Result

text \<open>
  \<open>interface Input\<close>; a field is \<open>None\<close> when the input object does not carry it
  (\<open>undefined\<close>, the case in which a destructuring default applies).
\<close>

record Input =
  requestsCount :: "int option"
  prepaidRentalResultsCount :: "int option"

text \<open>
  What can be thrown: the \<open>TypeError\<close> of destructuring \<open>null\<close>, the rejection of a call
  to the bookkeeping dataset client, the rejection of \<open>Actor.pushData\<close> and the rejection
  of \<open>Actor.charge\<close>. No \<open>try\<close>/\<open>catch\<close> occurs in the program, so each of them leaves
  the function that awaited the call.
\<close>

datatype error = TypeError | StoreError | PushDataError | ChargeError

definition SAFE_RENTAL_RECHECK_WAIT_MS :: nat where
  "SAFE_RENTAL_RECHECK_WAIT_MS = 5000"

text \<open>
  The calls the program makes to the outside, in the order it makes them. A call that is
  rejected still appears: it was issued. \<open>GetOrCreate\<close> opens the bookkeeping dataset
  of the month by its name, \<open>ListItems\<close> and \<open>PushItems\<close> go to that dataset,
  \<open>PushData\<close> to the run's output dataset, \<open>Charge\<close> is
  \<open>Actor.charge\<close> with its event name and count, \<open>SetTimeout\<close> registers the one-shot
  re-check, \<open>Teardown\<close> is \<open>crawler.teardown()\<close>. The log lines are told apart by the
  place that writes them, with the numbers they interpolate.
\<close>

datatype logLine =
    ChargedRental
  | SkippedRental
  | NotFirstRun
  | CountUpdated int int
  | PushingFree int int
  | NoMoreFree int int
  | LimitReached

datatype effect =
    GetOrCreate string
  | ListItems
  | PushItems BookkeepingRecord
  | SetTimeout nat
  | Charge ChargeEvent int
  | PushData string
  | Log logLine
  | Teardown

text \<open>
  How a piece of the program ends: the calls it issued, and either the value it came to
  or the rejection that left it (\<open>Inl\<close>).
\<close>

record 'a finished =
  effects :: "effect list"
  outcome :: "error + 'a"

definition isCharge :: "effect \<Rightarrow> bool" where
  "isCharge e = (case e of Charge _ _ \<Rightarrow> True | _ \<Rightarrow> False)"

definition isPushData :: "effect \<Rightarrow> bool" where
  "isPushData e = (case e of PushData _ \<Rightarrow> True | _ \<Rightarrow> False)"

section \<open>Reading the input (line 38)\<close>

text \<open>
  \<open>const { requestsCount = 50, prepaidRentalResultsCount = 100 } = (await Actor.getInput())!\<close>.
  The \<open>!\<close> is erased by the compiler; \<open>Actor.getInput\<close> gives \<open>null\<close> when the run has
  no input, and destructuring \<open>null\<close> throws. No other check is made on the two numbers.
\<close>

definition readInput :: "Input option \<Rightarrow> error + (int \<times> int)" where
  "readInput got =
     (case got of
        None \<Rightarrow> Inl TypeError
      | Some i \<Rightarrow>
          Inr (case requestsCount i of None \<Rightarrow> 50 | Some n \<Rightarrow> n,
               case prepaidRentalResultsCount i of None \<Rightarrow> 100 | Some n \<Rightarrow> n))"

section \<open>The rental charge (lines 56 to 87)\<close>

definition isItemsPushed :: "BookkeepingRecord \<Rightarrow> bool" where
  "isItemsPushed item = (case item of ItemsPushed _ _ _ \<Rightarrow> True | _ \<Rightarrow> False)"

definition isFirstMonthRun :: "BookkeepingRecord \<Rightarrow> bool" where
  "isFirstMonthRun item = (case item of FirstMonthRun _ _ \<Rightarrow> True | _ \<Rightarrow> False)"

text \<open>\<open>bookkeepingItems.some((item) => item.type === 'first-month-run')\<close>\<close>

definition wasAlreadyRunThisMonth :: "BookkeepingRecord list \<Rightarrow> bool" where
  "wasAlreadyRunThisMonth bookkeepingItems = list_ex isFirstMonthRun bookkeepingItems"

text \<open>
  \<open>bookkeepingItems.find((item) => item.type === 'first-month-run')?.runId === actorRunId\<close>:
  the first record of that type in the order of the listing; when there is none the
  left side is \<open>undefined\<close>, which is not equal to a run id.
\<close>

definition isThisReallyFirstRun :: "string \<Rightarrow> BookkeepingRecord list \<Rightarrow> bool" where
  "isThisReallyFirstRun actorRunId bookkeepingItems =
     (map_option runId (find isFirstMonthRun bookkeepingItems) = Some actorRunId)"

text \<open>\<open>items.filter(type === 'items-pushed').reduce((acc, item) => acc + item.count, 0)\<close>\<close>

definition sumBookkeepingPushedResultsCount :: "BookkeepingRecord list \<Rightarrow> int" where
  "sumBookkeepingPushedResultsCount items =
     foldl (\<lambda>acc item. acc + count item) 0 (filter isItemsPushed items)"

text \<open>
  Lines 56 to 87 and 102, the top level of the module up to the first value of the
  counter. \<open>listing\<close> is what the first \<open>listItems\<close> answers and \<open>pushed\<close> what
  \<open>pushItems\<close> answers, should it be called. Both calls are awaited at the top level
  with no handler, so a rejection ends the module there. On return the value says
  whether the re-check was registered, and gives the counter computed from the first
  listing.
\<close>

definition startup ::
  "string \<Rightarrow> string \<Rightarrow> error + BookkeepingRecord list \<Rightarrow> error + unit
   \<Rightarrow> (bool \<times> int) finished" where
  "startup actorRunId now listing pushed =
     (case listing of
        Inl e \<Rightarrow> \<lparr>effects = [ListItems], outcome = Inl e\<rparr>
      | Inr bookkeepingItems \<Rightarrow>
          if \<not> wasAlreadyRunThisMonth bookkeepingItems then
            (case pushed of
               Inl e \<Rightarrow>
                 \<lparr>effects = [ListItems, PushItems (FirstMonthRun actorRunId now)],
                  outcome = Inl e\<rparr>
             | Inr _ \<Rightarrow>
                 \<lparr>effects = [ListItems, PushItems (FirstMonthRun actorRunId now),
                             SetTimeout SAFE_RENTAL_RECHECK_WAIT_MS],
                  outcome = Inr (True, sumBookkeepingPushedResultsCount bookkeepingItems)\<rparr>)
          else
            \<lparr>effects = [ListItems, Log NotFirstRun],
             outcome = Inr (False, sumBookkeepingPushedResultsCount bookkeepingItems)\<rparr>)"

text \<open>
  The callback given to \<open>setTimeout\<close> (lines 71 to 84). \<open>relisting\<close> is the answer of
  its \<open>listItems\<close>, \<open>charged\<close> the answer of \<open>Actor.charge\<close> (whether the charge limit
  was reached, which this callback does not read).
\<close>

definition recheck ::
  "string \<Rightarrow> error + BookkeepingRecord list \<Rightarrow> error + bool \<Rightarrow> unit finished" where
  "recheck actorRunId relisting charged =
     (case relisting of
        Inl e \<Rightarrow> \<lparr>effects = [ListItems], outcome = Inl e\<rparr>
      | Inr bookkeepingItems \<Rightarrow>
          if isThisReallyFirstRun actorRunId bookkeepingItems then
            \<lparr>effects = [ListItems, Log ChargedRental, Charge Rental 1],
             outcome = (case charged of Inl e \<Rightarrow> Inl e | Inr _ \<Rightarrow> Inr ())\<rparr>
          else
            \<lparr>effects = [ListItems, Log SkippedRental], outcome = Inr ()\<rparr>)"

text \<open>
  The rental part of one run from start to end: the top level, and then the callback.
  The callback runs at most once, and only if the top level came to register it and the
  process is still there when the wait is over: the last lines of the module
  (\<open>await crawler.run(startRequests); await Actor.exit()\<close>, lines 161 to 163) end the
  process as soon as the crawl is done, and a timer that has not fired by then never
  does. \<open>relisting\<close> is \<open>None\<close> in that case, and otherwise the answer of the
  callback's \<open>listItems\<close>.
\<close>

definition rentalCoordinator ::
  "string \<Rightarrow> string \<Rightarrow> error + BookkeepingRecord list \<Rightarrow> error + unit
   \<Rightarrow> (error + BookkeepingRecord list) option \<Rightarrow> error + bool \<Rightarrow> effect list" where
  "rentalCoordinator actorRunId now listing pushed relisting charged =
     (let started = startup actorRunId now listing pushed in
      case outcome started of
        Inr (True, _) \<Rightarrow>
          (case relisting of
             None \<Rightarrow> effects started
           | Some relisted \<Rightarrow>
               effects started @ effects (recheck actorRunId relisted charged))
      | _ \<Rightarrow> effects started)"

text \<open>
  Lines 40 and 45: the name of the bookkeeping dataset is the year and month of the
  current instant (the first seven characters of its ISO string), a hyphen, and the id
  of the user.
\<close>

definition bookkeepingDatasetName :: "string \<Rightarrow> string \<Rightarrow> string" where
  "bookkeepingDatasetName today userId = take 7 today @ ''-'' @ userId"

text \<open>
  The top level from line 38 to line 87: the input is read, the dataset of the month is
  opened (\<open>opened\<close> is the answer of \<open>getOrCreate\<close>), and the rental part follows.
  On return: \<open>requestsCount\<close>, \<open>prepaidRentalResultsCount\<close>, whether the re-check was
  registered, and the counter.
\<close>

definition boot ::
  "Input option \<Rightarrow> string \<Rightarrow> string \<Rightarrow> string \<Rightarrow> string \<Rightarrow> error + unit
   \<Rightarrow> error + BookkeepingRecord list \<Rightarrow> error + unit
   \<Rightarrow> (int \<times> int \<times> bool \<times> int) finished" where
  "boot got userId actorRunId today now opened listing pushed =
     (case readInput got of
        Inl e \<Rightarrow> \<lparr>effects = [], outcome = Inl e\<rparr>
      | Inr (n, prepaid) \<Rightarrow>
          (case opened of
             Inl e \<Rightarrow>
               \<lparr>effects = [GetOrCreate (bookkeepingDatasetName today userId)],
                outcome = Inl e\<rparr>
           | Inr _ \<Rightarrow>
               (let started = startup actorRunId now listing pushed in
                \<lparr>effects = GetOrCreate (bookkeepingDatasetName today userId) # effects started,
                 outcome = (case outcome started of
                              Inl e \<Rightarrow> Inl e
                            | Inr (registered, counter) \<Rightarrow>
                                Inr (n, prepaid, registered, counter))\<rparr>)))"

section \<open>The quota counter (lines 99 to 116)\<close>

text \<open>
  \<open>getPushedFreeResultsCount\<close> lists the dataset and sums; the listing is the answer of
  the store, \<open>Inl\<close> when the call is rejected.
\<close>

definition getPushedFreeResultsCount :: "error + BookkeepingRecord list \<Rightarrow> error + int" where
  "getPushedFreeResultsCount listing =
     (case listing of
        Inl e \<Rightarrow> Inl e
      | Inr items \<Rightarrow> Inr (sumBookkeepingPushedResultsCount items))"

text \<open>
  The body of the \<open>setInterval\<close> callback, on the counter
  \<open>bookkeepingPushedResultsCount\<close>: the assignment happens only when the awaited call
  returns; a rejection leaves the callback with the counter as it was.
\<close>

definition refresh ::
  "int \<Rightarrow> error + BookkeepingRecord list \<Rightarrow> int \<Rightarrow> int \<times> unit finished" where
  "refresh prepaid listing counter =
     (case getPushedFreeResultsCount listing of
        Inl e \<Rightarrow> (counter, \<lparr>effects = [ListItems], outcome = Inl e\<rparr>)
      | Inr n \<Rightarrow> (n, \<lparr>effects = [ListItems, Log (CountUpdated n prepaid)], outcome = Inr ()\<rparr>))"

text \<open>
  The specification's wording of the same number: the sum of \<open>count\<close> over the usage
  records of a listing.
\<close>

fun usageTotal :: "BookkeepingRecord list \<Rightarrow> int" where
  "usageTotal [] = 0"
| "usageTotal (FirstMonthRun _ _ # rest) = usageTotal rest"
| "usageTotal (ItemsPushed n _ _ # rest) = n + usageTotal rest"

section \<open>The request handler (lines 128 to 158)\<close>

datatype decision = Free | Paid

text \<open>What the three awaited calls of one invocation answer.\<close>

record responses =
  pushDataResponse :: "error + unit"
  pushItemsResponse :: "error + unit"
  chargeResponse :: "error + bool"

text \<open>
  One invocation, on the counter \<open>bookkeepingPushedResultsCount\<close>. The counter is a
  JavaScript number that is only incremented; it is an unbounded integer here.
  The \<open>sleep\<close> has no part in what is computed. The increment and the comparison are
  not separated by an \<open>await\<close>. \<open>prepaid\<close> is \<open>prepaidRentalResultsCount\<close>;
  \<open>chargeResponse\<close> carries \<open>eventChargeLimitReached\<close>.
\<close>

definition requestHandler ::
  "int \<Rightarrow> string \<Rightarrow> string \<Rightarrow> string \<Rightarrow> responses \<Rightarrow> int \<Rightarrow> int \<times> decision finished" where
  "requestHandler prepaid actorRunId now loadedUrl resp counter =
     (case pushDataResponse resp of
        Inl e \<Rightarrow> (counter, \<lparr>effects = [PushData loadedUrl], outcome = Inl e\<rparr>)
      | Inr _ \<Rightarrow>
          (let counter' = counter + 1 in
           if counter' < prepaid then
             (counter',
              \<lparr>effects = [PushData loadedUrl,
                          Log (PushingFree counter' prepaid),
                          PushItems (ItemsPushed 1 actorRunId now)],
               outcome = (case pushItemsResponse resp of
                            Inl e \<Rightarrow> Inl e
                          | Inr _ \<Rightarrow> Inr Free)\<rparr>)
           else
             (case chargeResponse resp of
                Inl e \<Rightarrow>
                  (counter',
                   \<lparr>effects = [PushData loadedUrl,
                               Log (NoMoreFree counter' prepaid),
                               Charge Result 1],
                    outcome = Inl e\<rparr>)
              | Inr eventChargeLimitReached \<Rightarrow>
                  (counter',
                   \<lparr>effects = [PushData loadedUrl,
                               Log (NoMoreFree counter' prepaid),
                               Charge Result 1]
                              @ (if eventChargeLimitReached then [Log LimitReached, Teardown]
                                 else []),
                    outcome = Inr Paid\<rparr>))))"

section \<open>One run alone on the dataset\<close>

text \<open>
  The scenario of a single run that nobody else writes beside: its handler invocations
  one after the other, with the refresh callback firing between any two of them. Every
  call is answered, the charge limit is not reached, a listing shows the whole dataset,
  and what the handler pushes to the bookkeeping dataset is appended to it.
\<close>

datatype soloEvent = Produced string string | Tick

definition allAnswered :: responses where
  "allAnswered =
     \<lparr>pushDataResponse = Inr (), pushItemsResponse = Inr (), chargeResponse = Inr False\<rparr>"

fun pushedItems :: "effect list \<Rightarrow> BookkeepingRecord list" where
  "pushedItems [] = []"
| "pushedItems (PushItems r # es) = r # pushedItems es"
| "pushedItems (_ # es) = pushedItems es"

fun soloRun ::
  "int \<Rightarrow> string \<Rightarrow> soloEvent list \<Rightarrow> int \<Rightarrow> BookkeepingRecord list
   \<Rightarrow> (error + decision) list" where
  "soloRun prepaid actorRunId [] counter stored = []"
| "soloRun prepaid actorRunId (Tick # evs) counter stored =
     soloRun prepaid actorRunId evs (fst (refresh prepaid (Inr stored) counter)) stored"
| "soloRun prepaid actorRunId (Produced loadedUrl now # evs) counter stored =
     (case requestHandler prepaid actorRunId now loadedUrl allAnswered counter of
        (counter', handled) \<Rightarrow>
          outcome handled
          # soloRun prepaid actorRunId evs counter' (stored @ pushedItems (effects handled)))"

fun produced :: "soloEvent list \<Rightarrow> nat" where
  "produced [] = 0"
| "produced (Tick # evs) = produced evs"
| "produced (Produced _ _ # evs) = Suc (produced evs)"

section \<open>The specification's rule for the authoritative marker\<close>

text \<open>
  Following the specification's words, not the program: of the period markers of a
  listing, the one with the lowest timestamp, the first seen among equals. The strings of
  \<open>toISOString\<close> have a fixed layout, so their lexicographic order is the order of the
  instants.
\<close>

fun earliestMarker :: "BookkeepingRecord list \<Rightarrow> BookkeepingRecord option" where
  "earliestMarker [] = None"
| "earliestMarker (r # rest) =
     (if isFirstMonthRun r then
        (case earliestMarker rest of
           None \<Rightarrow> Some r
         | Some m \<Rightarrow> if timestamp m < timestamp r then Some m else Some r)
      else earliestMarker rest)"

section \<open>Several runs on one dataset\<close>

text \<open>
  Runs of the same user in the same month share one bookkeeping dataset. Each run is at
  one of these places of the module: before its first listing (line 56); after a first
  listing that showed no marker and before its \<open>pushItems\<close> has returned (line 63);
  with the re-check registered (line 71); past the rental part without a charge; past
  it with the charge made (line 78). Runs are told apart by their run ids, which the
  platform gives out once each, and a run goes through the module once.
\<close>

datatype phase = Unchecked | Listed | Pending | Skipped | Charged

datatype listingCall = AtStart | AtRecheck

record world =
  dataset :: "BookkeepingRecord list"
  phase :: "string \<Rightarrow> phase"
  chargedBy :: "string list"

text \<open>
  The moves of the runs, each one call to the dataset together with the synchronous code
  behind it: the first listing with what it showed, the push of the marker, the re-check
  with what its listing showed (and the charge, when the callback decides for it), and a
  usage record pushed by a handler, which only runs once the top level is through.
\<close>

datatype action =
    Lists string "BookkeepingRecord list"
  | Pushes string string
  | Rechecks string "BookkeepingRecord list"
  | PushesUsage string string

text \<open>
  Modelled from the spec: the dataset service is not part of the repository. The
  specification gives it no atomicity and lets a reader see the writes of others late
  (sections 2 and 5), so a listing shows some of the stored records, in stored order.
  What a listing may show is a parameter of the moves below: a predicate on the call,
  the run that lists, the stored records and the records shown. \<open>delayed\<close> allows
  every listing to leave records out. \<open>gapless\<close> allows that of the first listing
  only; the listing of a re-check may be stale, but shows the stored records from the
  first one on without a gap.
\<close>

definition delayed ::
  "listingCall \<Rightarrow> string \<Rightarrow> BookkeepingRecord list \<Rightarrow> BookkeepingRecord list \<Rightarrow> bool" where
  "delayed call w stored view = subseq view stored"

definition gapless ::
  "listingCall \<Rightarrow> string \<Rightarrow> BookkeepingRecord list \<Rightarrow> BookkeepingRecord list \<Rightarrow> bool" where
  "gapless call w stored view =
     (case call of AtStart \<Rightarrow> subseq view stored | AtRecheck \<Rightarrow> prefix view stored)"

fun step ::
  "(listingCall \<Rightarrow> string \<Rightarrow> BookkeepingRecord list \<Rightarrow> BookkeepingRecord list \<Rightarrow> bool)
   \<Rightarrow> action \<Rightarrow> world \<Rightarrow> world option" where
  "step vis (Lists w view) s =
     (if phase s w = Unchecked \<and> vis AtStart w (dataset s) view
      then Some (s\<lparr>phase := (phase s)
                    (w := if wasAlreadyRunThisMonth view then Skipped else Listed)\<rparr>)
      else None)"
| "step vis (Pushes w now) s =
     (if phase s w = Listed
      then Some (s\<lparr>dataset := dataset s @ [FirstMonthRun w now],
                   phase := (phase s)(w := Pending)\<rparr>)
      else None)"
| "step vis (Rechecks w view) s =
     (if phase s w = Pending \<and> vis AtRecheck w (dataset s) view
      then Some (if isThisReallyFirstRun w view
                 then s\<lparr>phase := (phase s)(w := Charged), chargedBy := chargedBy s @ [w]\<rparr>
                 else s\<lparr>phase := (phase s)(w := Skipped)\<rparr>)
      else None)"
| "step vis (PushesUsage w now) s =
     (if phase s w \<noteq> Unchecked \<and> phase s w \<noteq> Listed
      then Some (s\<lparr>dataset := dataset s @ [ItemsPushed 1 w now]\<rparr>)
      else None)"

fun run ::
  "(listingCall \<Rightarrow> string \<Rightarrow> BookkeepingRecord list \<Rightarrow> BookkeepingRecord list \<Rightarrow> bool)
   \<Rightarrow> action list \<Rightarrow> world \<Rightarrow> world option" where
  "run vis [] s = Some s"
| "run vis (a # acts) s =
     (case step vis a s of None \<Rightarrow> None | Some s' \<Rightarrow> run vis acts s')"

definition start :: "BookkeepingRecord list \<Rightarrow> world" where
  "start stored = \<lparr>dataset = stored, phase = (\<lambda>w. Unchecked), chargedBy = []\<rparr>"

text \<open>The run id on the first marker of the stored records, if there is a marker.\<close>

definition firstMarkerRun :: "BookkeepingRecord list \<Rightarrow> string option" where
  "firstMarkerRun stored = map_option runId (find isFirstMonthRun stored)"

text \<open>
  What holds of every world the runs can reach when the listing of a re-check is
  complete: no run is recorded twice as having charged, and a run that charged is past
  its charge and owns the first marker stored.
\<close>

definition oneClaim :: "world \<Rightarrow> bool" where
  "oneClaim s =
     (distinct (chargedBy s)
      \<and> (\<forall>w\<in>set (chargedBy s). phase s w = Charged \<and> firstMarkerRun (dataset s) = Some w))"

text \<open>
  What holds of a run alone on the dataset after \<open>k\<close> handler invocations: the stored
  usage is at most the counter, the counter at most \<open>k\<close>; while \<open>k\<close> is below the
  threshold every invocation has stored its record, and from \<open>prepaid - 1\<close> on the
  stored usage has reached \<open>prepaid - 1\<close>.
\<close>

definition inStep :: "int \<Rightarrow> int \<Rightarrow> int \<Rightarrow> BookkeepingRecord list \<Rightarrow> bool" where
  "inStep prepaid k counter stored =
     (0 \<le> usageTotal stored \<and> usageTotal stored \<le> counter \<and> counter \<le> k
      \<and> (k < prepaid \<longrightarrow> usageTotal stored = k)
      \<and> (prepaid - 1 \<le> k \<longrightarrow> prepaid - 1 \<le> usageTotal stored))"

section \<open>The counter and the refresh\<close>

lemma foldl_count_shift:
  "foldl (\<lambda>acc item. acc + count item) a xs = a + foldl (\<lambda>acc item. acc + count item) 0 xs"
proof (induction xs arbitrary: a)
  case Nil
  show ?case by simp
next
  case (Cons x xs)
  have "foldl (\<lambda>acc item. acc + count item) (a + count x) xs
        = (a + count x) + foldl (\<lambda>acc item. acc + count item) 0 xs"
    by (rule Cons.IH)
  moreover have "foldl (\<lambda>acc item. acc + count item) (0 + count x) xs
        = (0 + count x) + foldl (\<lambda>acc item. acc + count item) 0 xs"
    by (rule Cons.IH)
  ultimately show ?case by simp
qed

lemma sum_is_usageTotal: "sumBookkeepingPushedResultsCount items = usageTotal items"
proof (induction items rule: usageTotal.induct)
  case 1
  show ?case by (simp add: sumBookkeepingPushedResultsCount_def)
next
  case (2 r t rest)
  then show ?case by (simp add: sumBookkeepingPushedResultsCount_def isItemsPushed_def)
next
  case (3 n r t rest)
  have "sumBookkeepingPushedResultsCount (ItemsPushed n r t # rest)
        = foldl (\<lambda>acc item. acc + count item) n (filter isItemsPushed rest)"
    by (simp add: sumBookkeepingPushedResultsCount_def isItemsPushed_def)
  also have "\<dots> = n + sumBookkeepingPushedResultsCount rest"
    unfolding sumBookkeepingPushedResultsCount_def by (rule foldl_count_shift)
  finally show ?case using 3 by simp
qed

lemma refresh_counter: "fst (refresh prepaid (Inr items) counter) = usageTotal items"
  by (simp add: refresh_def getPushedFreeResultsCount_def sum_is_usageTotal)

text \<open>
  C7. A refresh whose listing call returns sets the counter to the sum of \<open>count\<close> over
  the usage records of that listing, whatever the counter was before: increments made
  since the listing are overwritten.
\<close>

theorem refresh_overwrites:
  "fst (refresh prepaid (Inr items) counter) = usageTotal items"
  by (rule refresh_counter)

lemma usageTotal_append: "usageTotal (xs @ ys) = usageTotal xs + usageTotal ys"
  by (induction xs rule: usageTotal.induct) auto

section \<open>The input\<close>

text \<open>
  C9. An input object without \<open>requestsCount\<close> gets 50, one without
  \<open>prepaidRentalResultsCount\<close> gets 100, a field that is present is taken as it is, and
  an absent input object makes the start fail with the \<open>TypeError\<close> of destructuring
  \<open>null\<close>.
\<close>

theorem readInput_defaults:
  "(\<exists>t. readInput (Some \<lparr>requestsCount = None, prepaidRentalResultsCount = p\<rparr>) = Inr (50, t))
   \<and> (\<exists>n. readInput (Some \<lparr>requestsCount = r, prepaidRentalResultsCount = None\<rparr>) = Inr (n, 100))
   \<and> readInput (Some \<lparr>requestsCount = Some n, prepaidRentalResultsCount = Some t\<rparr>) = Inr (n, t)
   \<and> readInput (Some \<lparr>requestsCount = None, prepaidRentalResultsCount = None\<rparr>) = Inr (50, 100)
   \<and> readInput None = Inl TypeError"
  by (simp add: readInput_def)

text \<open>
  C6, as the program has it. Nothing in the input is rejected: every input object,
  whatever its numbers, is read, and the start opens the bookkeeping dataset of the month
  and goes through the rental part as it would for any other numbers. The wait before
  the re-check is a positive constant and no part of the input. Only an absent input
  object ends the start, and it does so before any call to the dataset.
\<close>

theorem no_input_is_rejected:
  "(\<exists>n t. readInput (Some i) = Inr (n, t))
   \<and> effects (boot (Some i) userId actorRunId today now (Inr ()) listing pushed)
     = GetOrCreate (bookkeepingDatasetName today userId)
       # effects (startup actorRunId now listing pushed)
   \<and> boot None userId actorRunId today now opened listing pushed
     = \<lparr>effects = [], outcome = Inl TypeError\<rparr>
   \<and> 0 < SAFE_RENTAL_RECHECK_WAIT_MS"
  by (simp add: boot_def readInput_def SAFE_RENTAL_RECHECK_WAIT_MS_def Let_def)

text \<open>
  C6 as stated fails: a threshold of \<open>-1\<close> is read as it is, and the start lists the
  dataset, pushes the marker and registers the re-check.
\<close>

theorem negative_threshold_accepted:
  "boot (Some \<lparr>requestsCount = None, prepaidRentalResultsCount = Some (- 1)\<rparr>)
        ''user1'' ''runA'' ''2025-01-01T00:00:00.500Z'' ''2025-01-01T00:00:01.000Z''
        (Inr ()) (Inr []) (Inr ())
   = \<lparr>effects = [GetOrCreate ''2025-01-user1'', ListItems,
                 PushItems (FirstMonthRun ''runA'' ''2025-01-01T00:00:01.000Z''),
                 SetTimeout 5000],
      outcome = Inr (50, - 1, True, 0)\<rparr>"
  by (simp add: boot_def readInput_def startup_def wasAlreadyRunThisMonth_def
      sumBookkeepingPushedResultsCount_def SAFE_RENTAL_RECHECK_WAIT_MS_def
      bookkeepingDatasetName_def)

section \<open>The request handler\<close>

lemma handler_free:
  "counter + 1 < prepaid \<Longrightarrow>
   requestHandler prepaid actorRunId now loadedUrl allAnswered counter
   = (counter + 1,
      \<lparr>effects = [PushData loadedUrl, Log (PushingFree (counter + 1) prepaid),
                  PushItems (ItemsPushed 1 actorRunId now)],
       outcome = Inr Free\<rparr>)"
  by (simp add: requestHandler_def allAnswered_def Let_def)

lemma handler_paid:
  "\<not> counter + 1 < prepaid \<Longrightarrow>
   requestHandler prepaid actorRunId now loadedUrl allAnswered counter
   = (counter + 1,
      \<lparr>effects = [PushData loadedUrl, Log (NoMoreFree (counter + 1) prepaid), Charge Result 1],
       outcome = Inr Paid\<rparr>)"
  by (simp add: requestHandler_def allAnswered_def Let_def)

lemma teardown_iff_limit_reached:
  "Teardown \<in> set (effects (snd (requestHandler prepaid actorRunId now loadedUrl resp counter)))
   \<longleftrightarrow> pushDataResponse resp = Inr () \<and> \<not> counter + 1 < prepaid
       \<and> chargeResponse resp = Inr True"
  by (auto simp: requestHandler_def Let_def split: sum.splits)

lemma decision_needs_delivery:
  "outcome (snd (requestHandler prepaid actorRunId now loadedUrl resp counter)) = Inr d
   \<Longrightarrow> pushDataResponse resp = Inr ()"
  by (cases "pushDataResponse resp") (simp_all add: requestHandler_def)

lemma push_rejected_no_decision:
  "pushDataResponse resp = Inl e
   \<Longrightarrow> requestHandler prepaid actorRunId now loadedUrl resp counter
       = (counter, \<lparr>effects = [PushData loadedUrl], outcome = Inl e\<rparr>)"
  by (simp add: requestHandler_def)

text \<open>
  C10. Whatever the counter, the threshold and the answers of the three calls, the first
  call of an invocation is the push of the item to the output dataset, and no second
  push of an item follows: the log line of the decision, the usage record, the charge
  and the teardown all come after it. A decision, free or paid, with the charge limit
  reached or not, is only ever come to for an item whose push was accepted: when the
  push is rejected the invocation ends there, with the counter untouched, nothing
  decided and nothing charged.
\<close>

theorem pushData_once_first:
  "(\<exists>rest. effects (snd (requestHandler prepaid actorRunId now loadedUrl resp counter))
            = PushData loadedUrl # rest
          \<and> filter isPushData rest = [])
   \<and> (\<forall>d. outcome (snd (requestHandler prepaid actorRunId now loadedUrl resp counter)) = Inr d
          \<longrightarrow> pushDataResponse resp = Inr ())
   \<and> (\<forall>e. pushDataResponse resp = Inl e
          \<longrightarrow> requestHandler prepaid actorRunId now loadedUrl resp counter
              = (counter, \<lparr>effects = [PushData loadedUrl], outcome = Inl e\<rparr>))"
proof -
  have "\<exists>rest. effects (snd (requestHandler prepaid actorRunId now loadedUrl resp counter))
            = PushData loadedUrl # rest
          \<and> filter isPushData rest = []"
    by (simp add: requestHandler_def isPushData_def Let_def split: sum.split)
  then show ?thesis
    using decision_needs_delivery push_rejected_no_decision by blast
qed

theorem pushData_once_first_witness:
  "outcome (snd (requestHandler 100 ''runA'' ''2025-01-01T00:02:00.000Z''
       ''https://example.com/page-37''
       \<lparr>pushDataResponse = Inr (), pushItemsResponse = Inr (), chargeResponse = Inr True\<rparr>
       99)) = Inr Paid
   \<and> pushDataResponse
       \<lparr>pushDataResponse = Inr (), pushItemsResponse = Inr (), chargeResponse = Inr True\<rparr>
     = Inr ()
   \<and> requestHandler 100 ''runA'' ''2025-01-01T00:02:00.000Z'' ''https://example.com/page-37''
       \<lparr>pushDataResponse = Inl PushDataError, pushItemsResponse = Inr (),
        chargeResponse = Inr True\<rparr> 99
     = (99, \<lparr>effects = [PushData ''https://example.com/page-37''],
             outcome = Inl PushDataError\<rparr>)"
proof -
  let ?ok = "\<lparr>pushDataResponse = Inr (), pushItemsResponse = Inr (),
              chargeResponse = Inr True\<rparr>"
  let ?bad = "\<lparr>pushDataResponse = Inl PushDataError, pushItemsResponse = Inr (),
               chargeResponse = Inr True\<rparr>"
  have paid: "outcome (snd (requestHandler 100 ''runA'' ''2025-01-01T00:02:00.000Z''
       ''https://example.com/page-37'' ?ok 99)) = Inr Paid"
    by (simp add: requestHandler_def)
  have rejected: "pushDataResponse ?bad = Inl PushDataError"
    by simp
  from pushData_once_first [of 100 "''runA''" "''2025-01-01T00:02:00.000Z''"
      "''https://example.com/page-37''" ?ok 99] paid
  have "pushDataResponse ?ok = Inr ()" by blast
  moreover
  from pushData_once_first [of 100 "''runA''" "''2025-01-01T00:02:00.000Z''"
      "''https://example.com/page-37''" ?bad 99] rejected
  have "requestHandler 100 ''runA'' ''2025-01-01T00:02:00.000Z'' ''https://example.com/page-37''
          ?bad 99
        = (99, \<lparr>effects = [PushData ''https://example.com/page-37''],
                outcome = Inl PushDataError\<rparr>)"
    by blast
  ultimately show ?thesis using paid by blast
qed

section \<open>One run alone: which items are free\<close>

lemma inStep_tick:
  "inStep prepaid k counter stored \<Longrightarrow> inStep prepaid k (usageTotal stored) stored"
  by (simp add: inStep_def)

lemma inStep_free:
  "inStep prepaid k counter stored \<Longrightarrow> counter + 1 < prepaid \<Longrightarrow>
   k + 1 < prepaid \<and> inStep prepaid (k + 1) (counter + 1) (stored @ [ItemsPushed 1 r t])"
  by (auto simp: inStep_def usageTotal_append)

lemma inStep_paid:
  "inStep prepaid k counter stored \<Longrightarrow> \<not> counter + 1 < prepaid \<Longrightarrow>
   \<not> k + 1 < prepaid \<and> inStep prepaid (k + 1) (counter + 1) stored"
  by (auto simp: inStep_def)

lemma soloRun_decisions:
  "inStep prepaid k counter stored \<Longrightarrow>
   soloRun prepaid actorRunId evs counter stored
   = map (\<lambda>K. Inr (if K < prepaid then Free else Paid)) [k + 1 .. k + int (produced evs)]"
proof (induction evs arbitrary: k counter stored)
  case Nil
  show ?case by simp
next
  case (Cons ev evs)
  show ?case
  proof (cases ev)
    case Tick
    from Cons.IH [OF inStep_tick [OF Cons.prems]] Tick show ?thesis
      by (simp add: refresh_counter)
  next
    case (Produced loadedUrl now)
    have total: "k + int (produced (ev # evs)) = k + 1 + int (produced evs)"
      using Produced by simp
    have "k + 1 \<le> k + 1 + int (produced evs)" by simp
    then have "[k + 1 .. k + 1 + int (produced evs)]
               = (k + 1) # [k + 1 + 1 .. k + 1 + int (produced evs)]"
      by (rule upto_rec1)
    with total have up: "[k + 1 .. k + int (produced (ev # evs))]
              = (k + 1) # [k + 1 + 1 .. k + 1 + int (produced evs)]"
      by (simp only:)
    let ?f = "\<lambda>K. (Inr (if K < prepaid then Free else Paid) :: error + decision)"
    have unfolded: "map ?f [k + 1 .. k + int (produced (ev # evs))]
                    = ?f (k + 1) # map ?f [k + 1 + 1 .. k + 1 + int (produced evs)]"
      by (simp only: up list.map)
    show ?thesis
    proof (cases "counter + 1 < prepaid")
      case True
      from inStep_free [OF Cons.prems True, of actorRunId now]
      have lt: "k + 1 < prepaid"
        and nxt: "inStep prepaid (k + 1) (counter + 1) (stored @ [ItemsPushed 1 actorRunId now])"
        by simp_all
      have "soloRun prepaid actorRunId (ev # evs) counter stored
            = Inr Free # soloRun prepaid actorRunId evs (counter + 1)
                           (stored @ [ItemsPushed 1 actorRunId now])"
        using Produced by (simp add: handler_free [OF True])
      also have "\<dots> = Inr Free # map ?f [k + 1 + 1 .. k + 1 + int (produced evs)]"
        by (simp only: Cons.IH [OF nxt])
      also have "Inr Free = ?f (k + 1)"
        using lt by simp
      finally show ?thesis by (simp only: unfolded)
    next
      case False
      from inStep_paid [OF Cons.prems False]
      have ge: "\<not> k + 1 < prepaid" and nxt: "inStep prepaid (k + 1) (counter + 1) stored"
        by simp_all
      have "soloRun prepaid actorRunId (ev # evs) counter stored
            = Inr Paid # soloRun prepaid actorRunId evs (counter + 1) stored"
        using Produced by (simp add: handler_paid [OF False])
      also have "\<dots> = Inr Paid # map ?f [k + 1 + 1 .. k + 1 + int (produced evs)]"
        by (simp only: Cons.IH [OF nxt])
      also have "Inr Paid = ?f (k + 1)"
        using ge by simp
      finally show ?thesis by (simp only: unfolded)
    qed
  qed
qed

lemma inStep_fresh: "usageTotal stored = 0 \<Longrightarrow> inStep prepaid 0 0 stored"
  by (simp add: inStep_def)

lemma produced_items: "produced (map (\<lambda>i. Produced (url i) (now i)) ns) = length ns"
  by (induction ns) auto

lemma hundred_split:
  "map (\<lambda>K::int. (Inr (if K < 100 then Free else Paid) :: error + decision)) [1..150]
   = replicate 99 (Inr Free) @ replicate 51 (Inr Paid)"
  by code_simp

text \<open>
  C1, at the input where the program leaves it. A run alone starts from an empty
  dataset, so with the counter at 0 and its own marker stored. The counter is incremented
  before it is compared with \<open><\<close>, so the \<open>K\<close>-th item is free exactly when
  \<open>K < prepaid\<close>, also with refreshes in between. With a threshold of 100 and 150 items
  the first 99 are free and the last 51 are paid: the hundredth item is charged, where
  the comment at the head of the file gives the first 100 free.
\<close>

theorem hundredth_item_is_paid:
  "soloRun prepaid actorRunId evs 0 [FirstMonthRun actorRunId started]
   = map (\<lambda>K. Inr (if K < prepaid then Free else Paid)) [1 .. int (produced evs)]
   \<and> soloRun 100 actorRunId (map (\<lambda>i. Produced (url i) (now i)) [0..<150]) 0
        [FirstMonthRun actorRunId started]
     = replicate 99 (Inr Free) @ replicate 51 (Inr Paid)"
proof -
  have fresh: "inStep p 0 0 [FirstMonthRun actorRunId started]" for p
    by (rule inStep_fresh) simp
  have general: "soloRun p actorRunId es 0 [FirstMonthRun actorRunId started]
        = map (\<lambda>K. Inr (if K < p then Free else Paid)) [1 .. int (produced es)]" for p es
    using soloRun_decisions [OF fresh, of p actorRunId es] by simp
  have "soloRun 100 actorRunId (map (\<lambda>i. Produced (url i) (now i)) [0..<150]) 0
          [FirstMonthRun actorRunId started]
        = map (\<lambda>K. Inr (if K < 100 then Free else Paid)) [1..150]"
    by (simp add: general produced_items)
  then have "soloRun 100 actorRunId (map (\<lambda>i. Produced (url i) (now i)) [0..<150]) 0
          [FirstMonthRun actorRunId started]
        = replicate 99 (Inr Free) @ replicate 51 (Inr Paid)"
    by (simp only: hundred_split)
  with general show ?thesis by blast
qed

section \<open>The rental charge of one run\<close>

lemma recheck_charges_iff:
  "filter isCharge (effects (recheck actorRunId (Inr items) answer))
   = (if isThisReallyFirstRun actorRunId items then [Charge Rental 1] else [])"
  by (simp add: recheck_def isCharge_def)

lemma recheck_rejected:
  "recheck actorRunId (Inl e) answer = \<lparr>effects = [ListItems], outcome = Inl e\<rparr>"
  by (simp add: recheck_def)

lemma startup_no_charge: "filter isCharge (effects (startup actorRunId now listing pushed)) = []"
  by (simp add: startup_def isCharge_def split: sum.split)

lemma find_only_own:
  assumes "r \<in> set view" and "isFirstMonthRun r"
    and "\<forall>r\<in>set view. isFirstMonthRun r \<longrightarrow> runId r = actorRunId"
  shows "map_option runId (find isFirstMonthRun view) = Some actorRunId"
proof -
  from assms(1,2) obtain m where m: "find isFirstMonthRun view = Some m"
    by (cases "find isFirstMonthRun view") (auto simp: find_None_iff)
  then have "isFirstMonthRun m" and "m \<in> set view"
    by (auto simp: find_Some_iff)
  with assms(3) m show ?thesis by simp
qed

text \<open>
  C2, as the program has it. The marker that counts at the re-check is the first marker
  in the order of the listing, whatever the timestamps say: the callback charges the
  rental, once and with count 1, exactly when the run id on that marker is its own, and
  does not charge otherwise.
\<close>

theorem first_listed_marker_decides:
  "filter isCharge (effects (recheck actorRunId (Inr items) answer))
   = (if map_option runId (find isFirstMonthRun items) = Some actorRunId
      then [Charge Rental 1] else [])"
  by (simp add: recheck_charges_iff isThisReallyFirstRun_def)

text \<open>
  C2 as stated fails: when the marker with the later timestamp is listed first, the
  marker with the lowest timestamp is the one of \<open>runA\<close>, and yet the re-check of
  \<open>runB\<close> charges.
\<close>

theorem later_marker_listed_first_charges:
  "earliestMarker
     [FirstMonthRun ''runB'' ''2025-01-01T00:00:05.000Z'',
      FirstMonthRun ''runA'' ''2025-01-01T00:00:01.000Z'']
   = Some (FirstMonthRun ''runA'' ''2025-01-01T00:00:01.000Z'')
   \<and> effects (recheck ''runB''
        (Inr [FirstMonthRun ''runB'' ''2025-01-01T00:00:05.000Z'',
              FirstMonthRun ''runA'' ''2025-01-01T00:00:01.000Z'']) (Inr False))
     = [ListItems, Log ChargedRental, Charge Rental 1]"
  by (simp add: recheck_def isThisReallyFirstRun_def isFirstMonthRun_def)

text \<open>
  A run that is over before the wait has passed never comes to its re-check: whatever
  the first listing showed and whatever a re-check would have listed, nothing is charged.
  Its marker stays stored all the same.
\<close>

lemma exit_before_recheck_no_charge:
  "filter isCharge (rentalCoordinator actorRunId now listing pushed None answer) = []"
  by (simp add: rentalCoordinator_def Let_def startup_no_charge split: sum.split bool.split)

lemma exit_before_recheck_marker_stored:
  "\<not> wasAlreadyRunThisMonth items \<Longrightarrow>
   rentalCoordinator actorRunId now (Inr items) (Inr ()) None answer
   = [ListItems, PushItems (FirstMonthRun actorRunId now),
      SetTimeout SAFE_RENTAL_RECHECK_WAIT_MS]"
  by (simp add: rentalCoordinator_def Let_def startup_def)

text \<open>
  C4, as the program has it. A run whose first listing showed no marker, whose push of
  its marker returned, and whose re-check runs and lists its own marker and no marker of
  another run, charges the rental exactly once, with count 1: the top level charges
  nothing and the callback, which runs once, makes the one call.
\<close>

theorem own_marker_alone_charges_once:
  assumes "\<not> wasAlreadyRunThisMonth items"
    and "FirstMonthRun actorRunId now \<in> set view"
    and "\<forall>r\<in>set view. isFirstMonthRun r \<longrightarrow> runId r = actorRunId"
  shows "filter isCharge
           (rentalCoordinator actorRunId now (Inr items) (Inr ()) (Some (Inr view)) answer)
         = [Charge Rental 1]"
proof -
  have own: "isFirstMonthRun (FirstMonthRun actorRunId now)"
    by (simp add: isFirstMonthRun_def)
  have "isThisReallyFirstRun actorRunId view"
    unfolding isThisReallyFirstRun_def by (rule find_only_own [OF assms(2) own assms(3)])
  then have "filter isCharge (effects (recheck actorRunId (Inr view) answer)) = [Charge Rental 1]"
    by (simp add: recheck_charges_iff)
  moreover have "outcome (startup actorRunId now (Inr items) (Inr ()))
                 = Inr (True, sumBookkeepingPushedResultsCount items)"
    using assms(1) by (simp add: startup_def)
  ultimately show ?thesis
    by (simp add: rentalCoordinator_def Let_def startup_no_charge)
qed

theorem own_marker_alone_charges_once_witness:
  "\<not> wasAlreadyRunThisMonth [ItemsPushed 1 ''run0'' ''2025-01-01T00:00:00.000Z'']
   \<and> FirstMonthRun ''runA'' ''2025-01-01T00:00:01.000Z''
       \<in> set [ItemsPushed 1 ''run0'' ''2025-01-01T00:00:00.000Z'',
              FirstMonthRun ''runA'' ''2025-01-01T00:00:01.000Z'']
   \<and> filter isCharge
        (rentalCoordinator ''runA'' ''2025-01-01T00:00:01.000Z''
           (Inr [ItemsPushed 1 ''run0'' ''2025-01-01T00:00:00.000Z'']) (Inr ())
           (Some (Inr [ItemsPushed 1 ''run0'' ''2025-01-01T00:00:00.000Z'',
                       FirstMonthRun ''runA'' ''2025-01-01T00:00:01.000Z''])) (Inr False))
      = [Charge Rental 1]"
proof -
  have a: "\<not> wasAlreadyRunThisMonth [ItemsPushed 1 ''run0'' ''2025-01-01T00:00:00.000Z'']"
    by (simp add: wasAlreadyRunThisMonth_def isFirstMonthRun_def)
  have b: "FirstMonthRun ''runA'' ''2025-01-01T00:00:01.000Z''
       \<in> set [ItemsPushed 1 ''run0'' ''2025-01-01T00:00:00.000Z'',
              FirstMonthRun ''runA'' ''2025-01-01T00:00:01.000Z'']"
    by simp
  have c: "\<forall>r\<in>set [ItemsPushed 1 ''run0'' ''2025-01-01T00:00:00.000Z'',
              FirstMonthRun ''runA'' ''2025-01-01T00:00:01.000Z''].
             isFirstMonthRun r \<longrightarrow> runId r = ''runA''"
    by (simp add: isFirstMonthRun_def)
  from own_marker_alone_charges_once [OF a b c] a b show ?thesis by blast
qed

text \<open>
  C4 as stated fails: it does not ask that the re-check lists the run's own marker.
  When the re-check runs and its listing comes back without that marker, no marker of
  another run is listed either, and the callback does not charge.
\<close>

theorem own_marker_unseen_no_charge:
  "\<not> wasAlreadyRunThisMonth []
   \<and> effects (startup ''runA'' ''2025-01-01T00:00:01.000Z'' (Inr []) (Inr ()))
     = [ListItems, PushItems (FirstMonthRun ''runA'' ''2025-01-01T00:00:01.000Z''),
        SetTimeout 5000]
   \<and> list_all (\<lambda>r. isFirstMonthRun r \<longrightarrow> runId r = ''runA'') []
   \<and> filter isCharge
        (rentalCoordinator ''runA'' ''2025-01-01T00:00:01.000Z'' (Inr []) (Inr ())
           (Some (Inr [])) (Inr False)) = []"
  by (simp add: rentalCoordinator_def startup_def recheck_def wasAlreadyRunThisMonth_def
      isThisReallyFirstRun_def isCharge_def SAFE_RENTAL_RECHECK_WAIT_MS_def)

lemma coordinator_push_rejected:
  "filter isCharge (rentalCoordinator actorRunId now listing (Inl e) relisting answer) = []"
  by (simp add: rentalCoordinator_def startup_def isCharge_def Let_def split: sum.split)

lemma coordinator_listing_rejected:
  "filter isCharge (rentalCoordinator actorRunId now (Inl e) pushed relisting answer) = []"
  by (simp add: rentalCoordinator_def startup_def isCharge_def Let_def)

lemma coordinator_relisting_rejected:
  "filter isCharge (rentalCoordinator actorRunId now listing pushed (Some (Inl e)) answer) = []"
proof -
  have "filter isCharge (effects (recheck actorRunId (Inl e) answer)) = []"
    by (simp add: recheck_rejected isCharge_def)
  then show ?thesis
    by (simp add: rentalCoordinator_def Let_def startup_no_charge split: sum.split bool.split)
qed

text \<open>
  C5, as the program has it. A rejected call to the bookkeeping dataset is not caught:
  it leaves the code that awaited it, with no log line written for it. A rejected push
  of the marker ends the top level before the re-check is registered; a rejected listing
  ends the top level or the callback right there; a rejected push of a usage record
  leaves the handler after the counter was incremented. None of these paths makes a
  charge.
\<close>

theorem store_failure_propagates_without_charge:
  assumes "\<not> wasAlreadyRunThisMonth items"
    and "counter + 1 < prepaid"
    and "pushDataResponse resp = Inr ()"
    and "pushItemsResponse resp = Inl e"
  shows "startup actorRunId now (Inr items) (Inl e)
           = \<lparr>effects = [ListItems, PushItems (FirstMonthRun actorRunId now)], outcome = Inl e\<rparr>
         \<and> startup actorRunId now (Inl e) pushed = \<lparr>effects = [ListItems], outcome = Inl e\<rparr>
         \<and> recheck actorRunId (Inl e) answer = \<lparr>effects = [ListItems], outcome = Inl e\<rparr>
         \<and> filter isCharge (rentalCoordinator actorRunId now listing (Inl e) relisting answer) = []
         \<and> filter isCharge (rentalCoordinator actorRunId now (Inl e) pushed relisting answer) = []
         \<and> filter isCharge
               (rentalCoordinator actorRunId now listing pushed (Some (Inl e)) answer) = []
         \<and> requestHandler prepaid actorRunId now loadedUrl resp counter
           = (counter + 1,
              \<lparr>effects = [PushData loadedUrl, Log (PushingFree (counter + 1) prepaid),
                          PushItems (ItemsPushed 1 actorRunId now)],
               outcome = Inl e\<rparr>)"
proof -
  have "startup actorRunId now (Inr items) (Inl e)
           = \<lparr>effects = [ListItems, PushItems (FirstMonthRun actorRunId now)], outcome = Inl e\<rparr>"
    using assms(1) by (simp add: startup_def)
  moreover have "startup actorRunId now (Inl e) pushed = \<lparr>effects = [ListItems], outcome = Inl e\<rparr>"
    by (simp add: startup_def)
  moreover have "requestHandler prepaid actorRunId now loadedUrl resp counter
           = (counter + 1,
              \<lparr>effects = [PushData loadedUrl, Log (PushingFree (counter + 1) prepaid),
                          PushItems (ItemsPushed 1 actorRunId now)],
               outcome = Inl e\<rparr>)"
    using assms(2,3,4) by (simp add: requestHandler_def Let_def)
  ultimately show ?thesis
    by (simp add: recheck_rejected coordinator_push_rejected coordinator_listing_rejected
        coordinator_relisting_rejected)
qed

theorem store_failure_propagates_without_charge_witness:
  "\<not> wasAlreadyRunThisMonth []
   \<and> filter isCharge (rentalCoordinator ''runA'' ''2025-01-01T00:00:01.000Z'' (Inr [])
        (Inl StoreError) (Some (Inr [])) (Inr False)) = []
   \<and> fst (requestHandler 100 ''runA'' ''2025-01-01T00:00:01.000Z'' ''https://example.com/page-1''
        \<lparr>pushDataResponse = Inr (), pushItemsResponse = Inl StoreError,
         chargeResponse = Inr False\<rparr> 41) = 42
   \<and> outcome (snd (requestHandler 100 ''runA'' ''2025-01-01T00:00:01.000Z''
        ''https://example.com/page-1''
        \<lparr>pushDataResponse = Inr (), pushItemsResponse = Inl StoreError,
         chargeResponse = Inr False\<rparr> 41)) = Inl StoreError"
proof -
  have a: "\<not> wasAlreadyRunThisMonth []"
    by (simp add: wasAlreadyRunThisMonth_def)
  have b: "(41::int) + 1 < 100" by simp
  have c: "pushDataResponse \<lparr>pushDataResponse = Inr (), pushItemsResponse = Inl StoreError,
         chargeResponse = Inr False\<rparr> = Inr ()" by simp
  have d: "pushItemsResponse \<lparr>pushDataResponse = Inr (), pushItemsResponse = Inl StoreError,
         chargeResponse = Inr False\<rparr> = Inl StoreError" by simp
  from store_failure_propagates_without_charge [OF a b c d,
      of "''runA''" "''2025-01-01T00:00:01.000Z''" "Inr ()" "Inr False" "Inr []" "Some (Inr [])"
         "''https://example.com/page-1''"] a
  show ?thesis by simp
qed

text \<open>
  C5 as stated fails: after a rejected push of the marker the top level has not come to
  an end of its own and has logged nothing, the callback with a rejected listing
  likewise, and a handler whose usage record was rejected ends with the rejection, not
  with a free decision, having logged only the line written before the push.
\<close>

theorem store_failure_not_handled:
  "startup ''runA'' ''2025-01-01T00:00:01.000Z'' (Inr []) (Inl StoreError)
     = \<lparr>effects = [ListItems, PushItems (FirstMonthRun ''runA'' ''2025-01-01T00:00:01.000Z'')],
        outcome = Inl StoreError\<rparr>
   \<and> recheck ''runA'' (Inl StoreError) (Inr False)
     = \<lparr>effects = [ListItems], outcome = Inl StoreError\<rparr>
   \<and> requestHandler 100 ''runA'' ''2025-01-01T00:00:09.000Z'' ''https://example.com/page-1''
        \<lparr>pushDataResponse = Inr (), pushItemsResponse = Inl StoreError,
         chargeResponse = Inr False\<rparr> 0
     = (1, \<lparr>effects = [PushData ''https://example.com/page-1'', Log (PushingFree 1 100),
                        PushItems (ItemsPushed 1 ''runA'' ''2025-01-01T00:00:09.000Z'')],
            outcome = Inl StoreError\<rparr>)"
  by (simp add: startup_def recheck_def requestHandler_def wasAlreadyRunThisMonth_def)

section \<open>Several runs: at most one rental charge\<close>

lemma find_append_kept: "find P xs = Some x \<Longrightarrow> find P (xs @ ys) = Some x"
  by (induction xs) (auto split: if_splits)

lemma firstMarkerRun_append:
  "firstMarkerRun stored = Some w \<Longrightarrow> firstMarkerRun (stored @ later) = Some w"
  unfolding firstMarkerRun_def by (auto simp: find_append_kept)

lemma oneClaim_start: "oneClaim (start stored)"
  by (simp add: oneClaim_def start_def)

lemma oneClaim_step:
  assumes own: "\<And>w stored view. vis AtRecheck w stored view
                  \<Longrightarrow> firstMarkerRun view = Some w \<Longrightarrow> firstMarkerRun stored = Some w"
    and inv: "oneClaim s"
    and st: "step vis a s = Some s'"
  shows "oneClaim s'"
proof (cases a)
  case (Lists w view)
  with st have "phase s w = Unchecked"
    and s': "s' = s\<lparr>phase := (phase s)(w := if wasAlreadyRunThisMonth view then Skipped else Listed)\<rparr>"
    by (auto split: if_splits)
  with inv show ?thesis
    by (auto simp: oneClaim_def)
next
  case (Pushes w now)
  with st have "phase s w = Listed"
    and s': "s' = s\<lparr>dataset := dataset s @ [FirstMonthRun w now], phase := (phase s)(w := Pending)\<rparr>"
    by (auto split: if_splits)
  with inv show ?thesis
    by (auto simp: oneClaim_def firstMarkerRun_append)
next
  case (Rechecks w view)
  with st have ph: "phase s w = Pending" and v: "vis AtRecheck w (dataset s) view"
    by (auto split: if_splits)
  from ph inv have notin: "w \<notin> set (chargedBy s)"
    by (auto simp: oneClaim_def)
  show ?thesis
  proof (cases "isThisReallyFirstRun w view")
    case True
    with st Rechecks ph v
    have s': "s' = s\<lparr>phase := (phase s)(w := Charged), chargedBy := chargedBy s @ [w]\<rparr>"
      by simp
    from True have "firstMarkerRun view = Some w"
      by (simp add: isThisReallyFirstRun_def firstMarkerRun_def)
    from own [OF v this] have "firstMarkerRun (dataset s) = Some w" .
    with inv notin s' show ?thesis
      by (auto simp: oneClaim_def)
  next
    case False
    with st Rechecks ph v
    have s': "s' = s\<lparr>phase := (phase s)(w := Skipped)\<rparr>"
      by simp
    with inv notin show ?thesis
      by (auto simp: oneClaim_def)
  qed
next
  case (PushesUsage w now)
  with st have s': "s' = s\<lparr>dataset := dataset s @ [ItemsPushed 1 w now]\<rparr>"
    by (auto split: if_splits)
  with inv show ?thesis
    by (auto simp: oneClaim_def firstMarkerRun_append)
qed

lemma oneClaim_run:
  assumes own: "\<And>w stored view. vis AtRecheck w stored view
                  \<Longrightarrow> firstMarkerRun view = Some w \<Longrightarrow> firstMarkerRun stored = Some w"
  shows "oneClaim s \<Longrightarrow> run vis acts s = Some s' \<Longrightarrow> oneClaim s'"
proof (induction acts arbitrary: s)
  case Nil
  then show ?case by simp
next
  case (Cons a acts)
  from Cons.prems(2) obtain s1 where a: "step vis a s = Some s1" and r: "run vis acts s1 = Some s'"
    by (auto split: option.splits)
  from oneClaim_step [OF own Cons.prems(1) a] have "oneClaim s1" .
  from Cons.IH [OF this r] show ?case .
qed

lemma distinct_all_same: "distinct xs \<Longrightarrow> \<forall>x\<in>set xs. x = a \<Longrightarrow> length xs \<le> 1"
  by (cases xs; cases "tl xs") auto

lemma gapless_keeps_first_marker:
  "gapless AtRecheck w stored view \<Longrightarrow> firstMarkerRun view = Some w
   \<Longrightarrow> firstMarkerRun stored = Some w"
  by (auto simp: gapless_def prefix_def firstMarkerRun_append)

text \<open>
  C3, as the program has it. Take any number of runs and any interleaving of their
  first listings, marker pushes, re-checks and usage pushes, with first listings that
  may show any part of what is stored. If no listing of a re-check shows the marker of
  the run that lists as its first marker while the first marker stored is the one of
  another run, then at most one run ever charges the rental. A listing of a re-check
  may be stale and may leave records out, as long as it does not hide the first marker
  stored behind the lister's own.
\<close>

theorem at_most_one_rental_charge:
  assumes "\<And>w stored view. vis AtRecheck w stored view
             \<Longrightarrow> firstMarkerRun view = Some w \<Longrightarrow> firstMarkerRun stored = Some w"
    and "run vis acts (start stored0) = Some s"
  shows "length (chargedBy s) \<le> 1"
proof -
  have "oneClaim s"
    using oneClaim_run [of vis, OF assms(1) oneClaim_start assms(2)] by simp
  then have "distinct (chargedBy s)"
    and "\<forall>w\<in>set (chargedBy s). w = the (firstMarkerRun (dataset s))"
    by (auto simp: oneClaim_def)
  then show ?thesis by (rule distinct_all_same)
qed

text \<open>
  Two runs race; the re-check of the first is stale (it is shown its own marker and not
  yet the one stored after it), the re-check of the second is shown both. One charge.
\<close>

theorem at_most_one_rental_charge_witness:
  "map_option chargedBy (run gapless
     [Lists ''runA'' [], Lists ''runB'' [],
      Pushes ''runA'' ''2025-01-01T00:00:01.000Z'', Pushes ''runB'' ''2025-01-01T00:00:02.000Z'',
      Rechecks ''runA'' [FirstMonthRun ''runA'' ''2025-01-01T00:00:01.000Z''],
      Rechecks ''runB'' [FirstMonthRun ''runA'' ''2025-01-01T00:00:01.000Z'',
                         FirstMonthRun ''runB'' ''2025-01-01T00:00:02.000Z'']]
     (start [])) = Some [''runA'']
   \<and> length (chargedBy (the (run gapless
     [Lists ''runA'' [], Lists ''runB'' [],
      Pushes ''runA'' ''2025-01-01T00:00:01.000Z'', Pushes ''runB'' ''2025-01-01T00:00:02.000Z'',
      Rechecks ''runA'' [FirstMonthRun ''runA'' ''2025-01-01T00:00:01.000Z''],
      Rechecks ''runB'' [FirstMonthRun ''runA'' ''2025-01-01T00:00:01.000Z'',
                         FirstMonthRun ''runB'' ''2025-01-01T00:00:02.000Z'']]
     (start [])))) \<le> 1"
proof -
  let ?acts = "[Lists ''runA'' [], Lists ''runB'' [],
      Pushes ''runA'' ''2025-01-01T00:00:01.000Z'', Pushes ''runB'' ''2025-01-01T00:00:02.000Z'',
      Rechecks ''runA'' [FirstMonthRun ''runA'' ''2025-01-01T00:00:01.000Z''],
      Rechecks ''runB'' [FirstMonthRun ''runA'' ''2025-01-01T00:00:01.000Z'',
                         FirstMonthRun ''runB'' ''2025-01-01T00:00:02.000Z'']]"
  have ran: "map_option chargedBy (run gapless ?acts (start [])) = Some [''runA'']"
    by (simp add: gapless_def start_def wasAlreadyRunThisMonth_def isThisReallyFirstRun_def
        isFirstMonthRun_def)
  then obtain s where s: "run gapless ?acts (start []) = Some s" by blast
  from at_most_one_rental_charge [of gapless, OF gapless_keeps_first_marker s] s ran
  show ?thesis by simp
qed

text \<open>
  C3 as stated fails: when the listing of a re-check may leave out a marker stored
  before the lister's own, two runs that each see only their own marker both charge.
\<close>

theorem delayed_listings_two_charges:
  "map_option chargedBy (run delayed
     [Lists ''runA'' [], Lists ''runB'' [],
      Pushes ''runA'' ''2025-01-01T00:00:01.000Z'', Pushes ''runB'' ''2025-01-01T00:00:02.000Z'',
      Rechecks ''runA'' [FirstMonthRun ''runA'' ''2025-01-01T00:00:01.000Z''],
      Rechecks ''runB'' [FirstMonthRun ''runB'' ''2025-01-01T00:00:02.000Z'']]
     (start [])) = Some [''runA'', ''runB'']"
  by (simp add: delayed_def start_def wasAlreadyRunThisMonth_def isThisReallyFirstRun_def
        isFirstMonthRun_def)

end
